theory Spec2Isabelle
  imports Main "HOL-Library.Char_ord" "HOL-Library.List_Lexorder"
begin

section \<open>The expense feed of \<open>src/components/dashboard-view.tsx\<close>\<close>

text \<open>
  The component \<open>DashboardView\<close> keeps four pieces of React state (\<open>expenses\<close>,
  \<open>isLoading\<close>, \<open>page\<close>, \<open>hasMore\<close>) and defines the callbacks \<open>loadExpenses\<close>,
  \<open>handleAddExpense\<close>, \<open>handleUpdateExpense\<close>, \<open>handleDeleteExpense\<close>, \<open>handleScroll\<close>
  and the memoised value \<open>allCategories\<close>. Each callback is embedded as a function from the
  state before the call and the way the awaited request settles to the state after the call
  and the list of calls made on the collaborators (network client, auth context, router,
  toast surface, console), in the order of the source.
\<close>

subsection \<open>Data\<close>

text \<open>
  \<open>Expense\<close> is imported from \<open>@/types\<close>; the component reads the fields \<open>_id\<close>,
  \<open>description\<close>, \<open>category\<close> and \<open>date\<close>. \<open>Omit<Expense, '_id'>\<close> is the record
  without the id, so \<open>Expense\<close> extends it. The field \<open>date\<close> holds the time value
  \<open>new Date(e.date).getTime()\<close> (milliseconds since the epoch) of the expense's date: the
  component uses a date for nothing else. The embedding covers dates that parse, whose time
  value is an integer. \<open>amount\<close> (in hundredths) is carried and never inspected. Strings
  are compared as the default \<open>sort()\<close> does, lexicographically by code unit.
\<close>

record ExpenseData =
  description :: string
  amount :: int
  category :: string
  date :: int

record Expense = ExpenseData +
  expense_id :: string

record FeedState =
  expenses :: "Expense list"
  isLoading :: bool
  page :: nat
  hasMore :: bool

definition PAGE_SIZE :: nat where
  "PAGE_SIZE = 10"

text \<open>The initial values of the four \<open>useState\<close> hooks.\<close>

definition initialState :: FeedState where
  "initialState = \<lparr>expenses = [], isLoading = True, page = 1, hasMore = True\<rparr>"

text \<open>An awaited promise either fulfils with a value or rejects (the \<open>catch\<close> branch).\<close>

datatype 'a settled = Fulfilled 'a | Rejected

text \<open>
  The calls a callback makes on its collaborators. \<open>Toast title description variant\<close> is
  \<open>toast({title, description, variant})\<close>, with \<open>None\<close> where the source gives no variant.
\<close>

datatype effect =
    Api_fetchExpenses string nat nat
  | Api_addExpense ExpenseData string
  | Api_updateExpense Expense string
  | Api_deleteExpense string string
  | Console_error string
  | Logout
  | Router_push string
  | Toast string string "string option"

text \<open>
  What \<open>useAuth()\<close> and \<open>useRouter()\<close> deliver at a render: the token (\<open>null\<close> is
  \<open>None\<close>) and the function objects \<open>logout\<close> and \<open>router\<close>, which React compares by
  identity; an identity is a number here.
\<close>

record Hooks =
  token :: "string option"
  logout_ref :: nat
  router_ref :: nat

text \<open>\<open>if (token)\<close>: \<open>null\<close> and the empty string are falsy.\<close>

definition truthy :: "string option \<Rightarrow> bool" where
  "truthy t = (case t of None \<Rightarrow> False | Some s \<Rightarrow> s \<noteq> [])"

subsection \<open>Sorting\<close>

text \<open>
  \<open>xs.sort(cmp)\<close> is stable, and with a consistent comparator its result is the one
  stable arrangement in which no element is followed by one that \<open>cmp\<close> puts strictly
  before it. Insertion from the right computes it: an element stays in front of the
  elements it ties with.
\<close>

fun insort_cmp :: "('a \<Rightarrow> 'a \<Rightarrow> int) \<Rightarrow> 'a \<Rightarrow> 'a list \<Rightarrow> 'a list" where
  "insort_cmp cmp x [] = [x]"
| "insort_cmp cmp x (y # ys) =
     (if cmp x y \<le> 0 then x # y # ys else y # insort_cmp cmp x ys)"

definition sort_cmp :: "('a \<Rightarrow> 'a \<Rightarrow> int) \<Rightarrow> 'a list \<Rightarrow> 'a list" where
  "sort_cmp cmp xs = foldr (insort_cmp cmp) xs []"

text \<open>\<open>(a, b) => new Date(b.date).getTime() - new Date(a.date).getTime()\<close>\<close>

definition byDateDesc :: "Expense \<Rightarrow> Expense \<Rightarrow> int" where
  "byDateDesc a b = date b - date a"

text \<open>\<open>[...new Set(xs)]\<close>: the distinct elements, each at its first occurrence.\<close>

fun spreadSet :: "'a list \<Rightarrow> 'a list" where
  "spreadSet [] = []"
| "spreadSet (x # xs) = x # spreadSet (filter (\<lambda>y. y \<noteq> x) xs)"

subsection \<open>The memoised callback \<open>loadExpenses\<close>\<close>

text \<open>
  \<open>loadExpenses\<close> is \<open>useCallback(async () => {...}, [token, logout, router])\<close>. The
  function object reads \<open>token\<close>, \<open>hasMore\<close> and \<open>page\<close> from the render that created
  it, and React keeps that object until one of the three dependencies changes. A callback
  is therefore its dependencies together with the \<open>page\<close> and \<open>hasMore\<close> it captured.
\<close>

record LoadCallback =
  cb_deps :: Hooks
  cb_page :: nat
  cb_hasMore :: bool

text \<open>
  \<open>useCallback\<close> at a render with hook values \<open>h\<close> and state \<open>st\<close>: the memoised
  callback if there is one with the same dependencies, else a new one. The flag tells
  whether the function object is new.
\<close>

definition useCallback_loadExpenses ::
    "LoadCallback option \<Rightarrow> Hooks \<Rightarrow> FeedState \<Rightarrow> LoadCallback \<times> bool" where
  "useCallback_loadExpenses memo h st =
     (let fresh = \<lparr>cb_deps = h, cb_page = page st, cb_hasMore = hasMore st\<rparr>
      in case memo of
           None \<Rightarrow> (fresh, True)
         | Some cb \<Rightarrow> if cb_deps cb = h then (cb, False) else (fresh, True))"

text \<open>
  The body of \<open>loadExpenses\<close>. The guard and the request read the captured values; the
  updaters \<open>setExpenses(prev => ...)\<close> and \<open>setPage(prev => prev + 1)\<close> read the
  current state. \<open>the\<close> is applied under the guard \<open>truthy\<close> only.
\<close>

definition loadExpenses ::
    "LoadCallback \<Rightarrow> Expense list settled \<Rightarrow> FeedState \<Rightarrow> FeedState \<times> effect list" where
  "loadExpenses cb res st =
     (if truthy (token (cb_deps cb)) \<and> cb_hasMore cb then
        (let st1 = st\<lparr>isLoading := True\<rparr>;
             request = Api_fetchExpenses (the (token (cb_deps cb))) (cb_page cb) PAGE_SIZE
         in case res of
              Fulfilled data \<Rightarrow>
                (let st2 = (if length data < PAGE_SIZE then st1\<lparr>hasMore := False\<rparr> else st1);
                     st3 = st2\<lparr>expenses := sort_cmp byDateDesc (expenses st2 @ data)\<rparr>;
                     st4 = st3\<lparr>page := page st3 + 1\<rparr>
                 in (st4\<lparr>isLoading := False\<rparr>, [request]))
            | Rejected \<Rightarrow>
                (st1\<lparr>isLoading := False\<rparr>,
                 [request, Console_error ''Failed to fetch expenses:'', Logout,
                  Router_push ''/login'']))
      else if \<not> truthy (token (cb_deps cb)) then (st\<lparr>isLoading := False\<rparr>, [])
      else (st, []))"

subsection \<open>The mutation handlers\<close>

text \<open>
  These are plain closures, made anew at every render, so they read the current token.
  \<open>quoted s\<close> is the template text \<open>"${s}"\<close>.
\<close>

definition quoted :: "string \<Rightarrow> string" where
  "quoted s = CHR 0x22 # s @ [CHR 0x22]"

definition handleAddExpense ::
    "string option \<Rightarrow> ExpenseData \<Rightarrow> Expense settled \<Rightarrow> FeedState \<Rightarrow> FeedState \<times> effect list" where
  "handleAddExpense tok newExpenseData res st =
     (if \<not> truthy tok then (st, [Console_error ''No auth token found''])
      else case res of
             Fulfilled newExpense \<Rightarrow>
               (st\<lparr>expenses := sort_cmp byDateDesc (newExpense # expenses st)\<rparr>,
                [Api_addExpense newExpenseData (the tok),
                 Toast ''Expense Added''
                   (quoted (description newExpense) @ '' has been added.'') None])
           | Rejected \<Rightarrow>
               (st,
                [Api_addExpense newExpenseData (the tok),
                 Console_error ''Failed to add expense:'',
                 Toast ''Error'' ''Failed to add expense.'' (Some ''destructive'')]))"

definition handleUpdateExpense ::
    "string option \<Rightarrow> Expense \<Rightarrow> Expense settled \<Rightarrow> FeedState \<Rightarrow> FeedState \<times> effect list" where
  "handleUpdateExpense tok updatedExpenseData res st =
     (if \<not> truthy tok then (st, [Console_error ''No auth token found''])
      else case res of
             Fulfilled updatedExpense \<Rightarrow>
               (st\<lparr>expenses := sort_cmp byDateDesc
                    (map (\<lambda>exp. if expense_id exp = expense_id updatedExpense
                                 then updatedExpense else exp) (expenses st))\<rparr>,
                [Api_updateExpense updatedExpenseData (the tok),
                 Toast ''Expense Updated''
                   (quoted (description updatedExpense) @ '' has been updated.'') None])
           | Rejected \<Rightarrow>
               (st,
                [Api_updateExpense updatedExpenseData (the tok),
                 Console_error ''Failed to update expense:'',
                 Toast ''Error'' ''Failed to update expense.'' (Some ''destructive'')]))"

text \<open>
  \<open>expenseToDelete?.description\<close> is \<open>undefined\<close> when no expense has the id, and the
  template prints it as the word \<open>undefined\<close>.
\<close>

definition handleDeleteExpense ::
    "string option \<Rightarrow> string \<Rightarrow> unit settled \<Rightarrow> FeedState \<Rightarrow> FeedState \<times> effect list" where
  "handleDeleteExpense tok expenseId res st =
     (if \<not> truthy tok then (st, [Console_error ''No auth token found''])
      else
        (let expenseToDelete = find (\<lambda>e. expense_id e = expenseId) (expenses st)
         in case res of
              Fulfilled u \<Rightarrow>
                (st\<lparr>expenses := filter (\<lambda>exp. expense_id exp \<noteq> expenseId) (expenses st)\<rparr>,
                 [Api_deleteExpense expenseId (the tok),
                  Toast ''Expense Deleted''
                    (quoted (case expenseToDelete of None \<Rightarrow> ''undefined''
                                                   | Some e \<Rightarrow> description e)
                     @ '' has been deleted.'') None])
            | Rejected \<Rightarrow>
                (st,
                 [Api_deleteExpense expenseId (the tok),
                  Console_error ''Failed to delete expense:'',
                  Toast ''Error'' ''Failed to delete expense.'' (Some ''destructive'')])))"

subsection \<open>Derived categories and the scroll handler\<close>

text \<open>\<open>[...new Set(expenses.map(e => e.category))].sort()\<close>\<close>

definition allCategories :: "Expense list \<Rightarrow> string list" where
  "allCategories es = sort (spreadSet (map category es))"

definition deriveCategories :: "FeedState \<Rightarrow> string list" where
  "deriveCategories st = allCategories (expenses st)"

text \<open>
  \<open>handleScroll\<close> is \<open>useCallback(..., [isLoading, hasMore, loadExpenses])\<close>: every
  value it reads is a dependency, so it always sees the current \<open>isLoading\<close> and
  \<open>hasMore\<close>, and the memoised \<open>loadExpenses\<close>. Its first three arguments are
  \<open>window.innerHeight\<close>, \<open>document.documentElement.scrollTop\<close> and
  \<open>document.documentElement.offsetHeight\<close>. The component defines the handler and uses
  it nowhere: it is not registered as a listener and not passed to a child.
\<close>

definition handleScroll ::
    "int \<Rightarrow> int \<Rightarrow> int \<Rightarrow> LoadCallback \<Rightarrow> Expense list settled \<Rightarrow> FeedState
       \<Rightarrow> FeedState \<times> effect list" where
  "handleScroll innerHeight scrollTop offsetHeight cb res st =
     (if innerHeight + scrollTop \<ge> offsetHeight - 100 \<and> \<not> isLoading st \<and> hasMore st
      then loadExpenses cb res st
      else (st, []))"

subsection \<open>The mounted component\<close>

text \<open>
  A view is the React state and the memoised \<open>loadExpenses\<close> (\<open>None\<close> before the first
  render). The events of a session: a render with the values of the hooks, after which
  \<open>useEffect(() => { loadExpenses() }, [loadExpenses])\<close> calls the callback if its function
  object is new; a scroll, with the three lengths \<open>handleScroll\<close> would read; and the
  three mutations. A scroll calls nothing, since \<open>handleScroll\<close> is not registered, so the
  effect is the only caller of \<open>loadExpenses\<close>. Each other event carries the way its
  request settles, each runs to completion before the next, and a state change re-renders
  with the same hook values, which keeps the memoised callback. \<open>token\<close> is a dependency
  of the callback, so the token of the latest render is the callback's.
\<close>

record View =
  feed :: FeedState
  loadCb :: "LoadCallback option"

definition initialView :: View where
  "initialView = \<lparr>feed = initialState, loadCb = None\<rparr>"

datatype event =
    Render Hooks "Expense list settled"
  | Scroll int int int
  | AddExpense ExpenseData "Expense settled"
  | UpdateExpense Expense "Expense settled"
  | DeleteExpense string "unit settled"

definition currentToken :: "LoadCallback \<Rightarrow> string option" where
  "currentToken cb = token (cb_deps cb)"

fun step :: "View \<Rightarrow> event \<Rightarrow> View \<times> effect list" where
  "step v (Render h res) =
     (case useCallback_loadExpenses (loadCb v) h (feed v) of
        (cb, changed) \<Rightarrow>
          if changed
          then (case loadExpenses cb res (feed v) of
                  (st, fx) \<Rightarrow> (\<lparr>feed = st, loadCb = Some cb\<rparr>, fx))
          else (v, []))"
| "step v (Scroll innerHeight scrollTop offsetHeight) = (v, [])"
| "step v (AddExpense newExpenseData res) =
     (case loadCb v of
        None \<Rightarrow> (v, [])
      | Some cb \<Rightarrow>
          (case handleAddExpense (currentToken cb) newExpenseData res (feed v) of
             (st, fx) \<Rightarrow> (v\<lparr>feed := st\<rparr>, fx)))"
| "step v (UpdateExpense updatedExpenseData res) =
     (case loadCb v of
        None \<Rightarrow> (v, [])
      | Some cb \<Rightarrow>
          (case handleUpdateExpense (currentToken cb) updatedExpenseData res (feed v) of
             (st, fx) \<Rightarrow> (v\<lparr>feed := st\<rparr>, fx)))"
| "step v (DeleteExpense expenseId res) =
     (case loadCb v of
        None \<Rightarrow> (v, [])
      | Some cb \<Rightarrow>
          (case handleDeleteExpense (currentToken cb) expenseId res (feed v) of
             (st, fx) \<Rightarrow> (v\<lparr>feed := st\<rparr>, fx)))"

fun run :: "View \<Rightarrow> event list \<Rightarrow> View \<times> effect list" where
  "run v [] = (v, [])"
| "run v (e # es) =
     (case step v e of
        (v1, fx1) \<Rightarrow> (case run v1 es of (v2, fx2) \<Rightarrow> (v2, fx1 @ fx2)))"

text \<open>The properties the claims speak of.\<close>

definition ids :: "Expense list \<Rightarrow> string list" where
  "ids es = map expense_id es"

definition sortedDesc :: "Expense list \<Rightarrow> bool" where
  "sortedDesc es = sorted_wrt (\<lambda>a b. date a \<ge> date b) es"

definition isFetch :: "effect \<Rightarrow> bool" where
  "isFetch fx = (case fx of Api_fetchExpenses t p n \<Rightarrow> True | _ \<Rightarrow> False)"

text \<open>
  The component does not compare ids when it accumulates. \<open>freshFor st e\<close> says that the
  records the server delivers in event \<open>e\<close> carry ids that are new to the items of \<open>st\<close>
  (and, within one page, pairwise different); \<open>freshRun\<close> says so of every event of a
  session, each at the state it meets.
\<close>

fun freshFor :: "FeedState \<Rightarrow> event \<Rightarrow> bool" where
  "freshFor st (Render h (Fulfilled data)) =
     (distinct (ids data) \<and> list_all (\<lambda>i. i \<notin> set (ids (expenses st))) (ids data))"
| "freshFor st (AddExpense newExpenseData (Fulfilled newExpense)) =
     (expense_id newExpense \<notin> set (ids (expenses st)))"
| "freshFor st e = True"

fun freshRun :: "View \<Rightarrow> event list \<Rightarrow> bool" where
  "freshRun v [] = True"
| "freshRun v (e # es) = (freshFor (feed v) e \<and> freshRun (fst (step v e)) es)"




text \<open>
  Alphabetical order, as the specification words the order of the categories: the order of
  a dictionary, which does not tell an upper-case letter from its lower-case letter. It is
  not taken from the source.
\<close>

definition lowerChar :: "char \<Rightarrow> char" where
  "lowerChar c =
     (if CHR ''A'' \<le> c \<and> c \<le> CHR ''Z'' then char_of (of_char c + (32 :: nat)) else c)"

definition sortedAlphabetically :: "string list \<Rightarrow> bool" where
  "sortedAlphabetically ls = sorted (map (map lowerChar) ls)"

text \<open>Concrete data for the examples: a logged-in user and pages of ten expenses.\<close>

definition loggedIn :: Hooks where
  "loggedIn = \<lparr>token = Some ''jwt'', logout_ref = 0, router_ref = 0\<rparr>"

definition seedExpense :: "nat \<Rightarrow> Expense" where
  "seedExpense n =
     \<lparr>description = ''Starbucks Coffee'', amount = 575, category = ''Dining Out'',
      date = int n, expense_id = replicate (Suc n) (CHR ''x'')\<rparr>"

definition seedPage :: "nat \<Rightarrow> Expense list" where
  "seedPage k = map seedExpense [10 * k ..< 10 * k + 10]"

definition coffee :: ExpenseData where
  "coffee = \<lparr>description = ''Coffee'', amount = 575, category = ''Dining Out'', date = 6\<rparr>"

definition loggedOut :: Hooks where
  "loggedOut = \<lparr>token = None, logout_ref = 0, router_ref = 0\<rparr>"

definition exampleCb :: LoadCallback where
  "exampleCb = \<lparr>cb_deps = loggedIn, cb_page = 1, cb_hasMore = True\<rparr>"

definition someFeed :: FeedState where
  "someFeed =
     \<lparr>expenses = [seedExpense 7, (seedExpense 8)\<lparr>date := 7, category := ''Groceries''\<rparr>,
        seedExpense 2],
      isLoading = False, page = 2, hasMore = True\<rparr>"

definition session1 :: "event list" where
  "session1 =
     [Render loggedIn (Fulfilled (seedPage 0)),
      AddExpense coffee (Fulfilled (seedExpense 10)),
      UpdateExpense (seedExpense 3) (Fulfilled ((seedExpense 3)\<lparr>date := 20\<rparr>)),
      DeleteExpense ''xx'' (Fulfilled ()),
      Render (loggedIn\<lparr>token := Some ''jwt2''\<rparr>)
        (Fulfilled [seedExpense 11, seedExpense 12])]"

definition shortPageView :: View where
  "shortPageView =
     fst (run initialView [Render loggedIn (Fulfilled [seedExpense 0, seedExpense 1])])"

definition laterEvents :: "event list" where
  "laterEvents =
     [AddExpense coffee (Fulfilled (seedExpense 5)),
      Scroll 800 1200 2000,
      Render (loggedIn\<lparr>token := Some ''jwt2''\<rparr>) (Fulfilled (seedPage 1))]"


definition mixedCaseFeed :: FeedState where
  "mixedCaseFeed =
     \<lparr>expenses = [(seedExpense 0)\<lparr>category := ''apple''\<rparr>,
        (seedExpense 1)\<lparr>category := ''Zoo''\<rparr>, (seedExpense 2)\<lparr>category := ''food''\<rparr>],
      isLoading = False, page = 2, hasMore = False\<rparr>"

section \<open>Properties\<close>

subsection \<open>The sort\<close>

lemma insort_cmp_byDateDesc:
  "insort_cmp byDateDesc x ys = insort_key (\<lambda>e. - date e) x ys"
  by (induction ys) (simp_all add: byDateDesc_def)

lemma sort_cmp_byDateDesc:
  "sort_cmp byDateDesc xs = sort_key (\<lambda>e. - date e) xs"
  by (induction xs) (simp_all add: sort_cmp_def sort_key_def insort_cmp_byDateDesc)

lemma sortedDesc_sort_cmp: "sortedDesc (sort_cmp byDateDesc xs)"
proof -
  have "sorted (map (\<lambda>e. - date e) (sort_key (\<lambda>e. - date e) xs))"
    by (rule sorted_sort_key)
  then show ?thesis
    by (simp add: sortedDesc_def sort_cmp_byDateDesc sorted_map)
qed

lemma set_sort_cmp: "set (sort_cmp byDateDesc xs) = set xs"
  by (simp add: sort_cmp_byDateDesc)

lemma stable_sort_cmp:
  "filter (\<lambda>e. date e = k) (sort_cmp byDateDesc xs) = filter (\<lambda>e. date e = k) xs"
proof -
  have "filter (\<lambda>e. - date e = - k) (sort_key (\<lambda>e. - date e) xs)
        = filter (\<lambda>e. - date e = - k) xs"
    by (rule sort_key_stable)
  then show ?thesis by (simp add: sort_cmp_byDateDesc)
qed

lemma distinct_map_insort_key:
  "distinct (map g (insort_key f x xs)) = distinct (map g (x # xs))"
  by (induction xs) (auto simp: set_insort_key)

lemma distinct_map_sort_key:
  "distinct (map g (sort_key f xs)) = distinct (map g xs)"
  by (induction xs) (simp_all add: distinct_map_insort_key)

lemma distinct_ids_sort_cmp:
  "distinct (ids (sort_cmp byDateDesc xs)) = distinct (ids xs)"
  by (simp add: sort_cmp_byDateDesc ids_def distinct_map_sort_key)

lemma set_ids_sort_cmp: "set (ids (sort_cmp byDateDesc xs)) = set (ids xs)"
  by (simp add: ids_def set_sort_cmp)

lemma insort_key_takeWhile:
  "insort_key f x xs = takeWhile (\<lambda>y. f y < f x) xs @ x # dropWhile (\<lambda>y. f y < f x) xs"
  by (induction xs) auto

lemma sortedDesc_filter: "sortedDesc xs \<Longrightarrow> sortedDesc (filter P xs)"
  by (simp add: sortedDesc_def sorted_wrt_filter)

lemma ids_replace:
  "ids (map (\<lambda>exp. if expense_id exp = expense_id u then u else exp) xs) = ids xs"
  by (induction xs) (simp_all add: ids_def)

lemma distinct_ids_filter: "distinct (ids xs) \<Longrightarrow> distinct (ids (filter P xs))"
  by (simp add: ids_def distinct_map_filter)

subsection \<open>Categories\<close>

lemma set_spreadSet: "set (spreadSet xs) = set xs"
  by (induction xs rule: spreadSet.induct) auto

lemma distinct_spreadSet: "distinct (spreadSet xs)"
  by (induction xs rule: spreadSet.induct) (auto simp: set_spreadSet)

lemma sorted_allCategories: "sorted (allCategories es)"
  by (simp add: allCategories_def)

lemma distinct_allCategories: "distinct (allCategories es)"
  by (simp add: allCategories_def distinct_spreadSet)

lemma set_allCategories: "set (allCategories es) = category ` set es"
  by (simp add: allCategories_def set_spreadSet)

subsection \<open>What one call and one event do to the state\<close>

lemma loadExpenses_ok:
  "truthy (token (cb_deps cb)) \<Longrightarrow> cb_hasMore cb \<Longrightarrow>
   loadExpenses cb (Fulfilled data) st =
     (st\<lparr>expenses := sort_cmp byDateDesc (expenses st @ data),
         isLoading := False, page := page st + 1,
         hasMore := (if length data < PAGE_SIZE then False else hasMore st)\<rparr>,
      [Api_fetchExpenses (the (token (cb_deps cb))) (cb_page cb) PAGE_SIZE])"
  by (simp add: loadExpenses_def Let_def)

lemma loadExpenses_expenses:
  "expenses (fst (loadExpenses cb res st)) =
     (case res of
        Fulfilled data \<Rightarrow>
          if truthy (token (cb_deps cb)) \<and> cb_hasMore cb
          then sort_cmp byDateDesc (expenses st @ data) else expenses st
      | Rejected \<Rightarrow> expenses st)"
  by (simp add: loadExpenses_def Let_def split: settled.splits)

lemma loadExpenses_hasMore:
  "\<not> hasMore st \<Longrightarrow> \<not> hasMore (fst (loadExpenses cb res st))"
  by (simp add: loadExpenses_def Let_def split: settled.splits)

lemma handleScroll_exhausted:
  "\<not> hasMore st \<Longrightarrow> handleScroll a b c cb res st = (st, [])"
  by (simp add: handleScroll_def)

lemma handleAddExpense_expenses:
  "expenses (fst (handleAddExpense tok nd res st)) =
     (case res of
        Fulfilled e \<Rightarrow>
          if truthy tok then sort_cmp byDateDesc (e # expenses st) else expenses st
      | Rejected \<Rightarrow> expenses st)"
  by (simp add: handleAddExpense_def split: settled.splits)

lemma handleUpdateExpense_expenses:
  "expenses (fst (handleUpdateExpense tok ud res st)) =
     (case res of
        Fulfilled u \<Rightarrow>
          if truthy tok
          then sort_cmp byDateDesc
                 (map (\<lambda>exp. if expense_id exp = expense_id u then u else exp) (expenses st))
          else expenses st
      | Rejected \<Rightarrow> expenses st)"
  by (simp add: handleUpdateExpense_def split: settled.splits)

lemma handleDeleteExpense_expenses:
  "expenses (fst (handleDeleteExpense tok i res st)) =
     (case res of
        Fulfilled u \<Rightarrow>
          if truthy tok then filter (\<lambda>exp. expense_id exp \<noteq> i) (expenses st)
          else expenses st
      | Rejected \<Rightarrow> expenses st)"
  by (simp add: handleDeleteExpense_def Let_def split: settled.splits)

lemma feed_step:
  "feed (fst (step v e)) =
     (case e of
        Render h res \<Rightarrow>
          if snd (useCallback_loadExpenses (loadCb v) h (feed v))
          then fst (loadExpenses (fst (useCallback_loadExpenses (loadCb v) h (feed v)))
                      res (feed v))
          else feed v
      | Scroll a b c \<Rightarrow> feed v
      | AddExpense nd res \<Rightarrow>
          (case loadCb v of None \<Rightarrow> feed v
           | Some cb \<Rightarrow> fst (handleAddExpense (currentToken cb) nd res (feed v)))
      | UpdateExpense ud res \<Rightarrow>
          (case loadCb v of None \<Rightarrow> feed v
           | Some cb \<Rightarrow> fst (handleUpdateExpense (currentToken cb) ud res (feed v)))
      | DeleteExpense i res \<Rightarrow>
          (case loadCb v of None \<Rightarrow> feed v
           | Some cb \<Rightarrow> fst (handleDeleteExpense (currentToken cb) i res (feed v))))"
  by (cases e) (simp_all add: split_beta split: option.splits)

lemma step_expenses_cases:
  "expenses (feed (fst (step v e))) = expenses (feed v)
   \<or> (\<exists>data h. e = Render h (Fulfilled data)
        \<and> expenses (feed (fst (step v e))) = sort_cmp byDateDesc (expenses (feed v) @ data))
   \<or> (\<exists>nd x. e = AddExpense nd (Fulfilled x)
        \<and> expenses (feed (fst (step v e))) = sort_cmp byDateDesc (x # expenses (feed v)))
   \<or> (\<exists>ud u. e = UpdateExpense ud (Fulfilled u)
        \<and> expenses (feed (fst (step v e))) = sort_cmp byDateDesc
             (map (\<lambda>exp. if expense_id exp = expense_id u then u else exp)
                (expenses (feed v))))
   \<or> (\<exists>i. e = DeleteExpense i (Fulfilled ())
        \<and> expenses (feed (fst (step v e))) =
             filter (\<lambda>exp. expense_id exp \<noteq> i) (expenses (feed v)))"
proof (cases e)
  case (Render h res)
  then show ?thesis
    by (cases res) (auto simp: feed_step loadExpenses_expenses simp del: step.simps)
next
  case (Scroll a b c)
  then show ?thesis by simp
next
  case (AddExpense nd res)
  then show ?thesis
    by (cases res) (auto simp: feed_step handleAddExpense_expenses simp del: step.simps
          split: option.splits)
next
  case (UpdateExpense ud res)
  then show ?thesis
    by (cases res) (auto simp: feed_step handleUpdateExpense_expenses simp del: step.simps
          split: option.splits)
next
  case (DeleteExpense i res)
  then show ?thesis
    by (cases res) (auto simp: feed_step handleDeleteExpense_expenses simp del: step.simps
          split: option.splits)
qed

lemma step_sortedDesc:
  "sortedDesc (expenses (feed v)) \<Longrightarrow> sortedDesc (expenses (feed (fst (step v e))))"
  using step_expenses_cases [of v e]
  by (auto simp: sortedDesc_sort_cmp sortedDesc_filter)

lemma run_sortedDesc:
  "sortedDesc (expenses (feed v)) \<Longrightarrow> sortedDesc (expenses (feed (fst (run v es))))"
proof (induction es arbitrary: v)
  case Nil
  then show ?case by simp
next
  case (Cons e es)
  from Cons.prems have "sortedDesc (expenses (feed (fst (step v e))))"
    by (rule step_sortedDesc)
  then have "sortedDesc (expenses (feed (fst (run (fst (step v e)) es))))"
    by (rule Cons.IH)
  then show ?case by (simp add: split_beta)
qed

lemma step_hasMore: "\<not> hasMore (feed v) \<Longrightarrow> \<not> hasMore (feed (fst (step v e)))"
  by (cases e)
     (auto simp: feed_step loadExpenses_hasMore handleAddExpense_def
        handleUpdateExpense_def handleDeleteExpense_def Let_def
        simp del: step.simps split: option.splits settled.splits)

lemma run_hasMore: "\<not> hasMore (feed v) \<Longrightarrow> \<not> hasMore (feed (fst (run v es)))"
proof (induction es arbitrary: v)
  case Nil
  then show ?case by simp
next
  case (Cons e es)
  from Cons.prems have "\<not> hasMore (feed (fst (step v e)))"
    by (rule step_hasMore)
  then have "\<not> hasMore (feed (fst (run (fst (step v e)) es)))"
    by (rule Cons.IH)
  then show ?case by (simp add: split_beta)
qed

lemma step_distinct_ids:
  assumes "distinct (ids (expenses (feed v)))" and "freshFor (feed v) e"
  shows "distinct (ids (expenses (feed (fst (step v e)))))"
proof -
  have app: "distinct (ids (xs @ data))"
    if "distinct (ids xs)" "distinct (ids data)"
       "list_all (\<lambda>i. i \<notin> set (ids xs)) (ids data)" for xs data :: "Expense list"
    using that by (auto simp: ids_def list_all_iff) (metis imageI)
  from step_expenses_cases [of v e] assms app [of "expenses (feed v)"] show ?thesis
    by (auto simp: distinct_ids_sort_cmp ids_replace distinct_ids_filter)
       (simp_all add: ids_def)
qed

lemma run_distinct_ids:
  "distinct (ids (expenses (feed v))) \<Longrightarrow> freshRun v es \<Longrightarrow>
   distinct (ids (expenses (feed (fst (run v es)))))"
proof (induction es arbitrary: v)
  case Nil
  then show ?case by simp
next
  case (Cons e es)
  from Cons.prems have "distinct (ids (expenses (feed (fst (step v e)))))"
    by (simp add: step_distinct_ids)
  moreover from Cons.prems have "freshRun (fst (step v e)) es" by simp
  ultimately have "distinct (ids (expenses (feed (fst (run (fst (step v e)) es)))))"
    by (rule Cons.IH)
  then show ?case by (simp add: split_beta)
qed

subsection \<open>The page a load asks for\<close>








section \<open>The claims\<close>



text \<open>
  Claim C2. After every operation \<open>expenses\<close> holds no two entries with the same id,
  for every sequence of operations from the empty feed and every sequence of pages returned
  by \<open>fetchExpenses\<close>.

  The component concatenates what the server returns and never compares ids. Here the
  second page, requested as page 2 after the token changed, repeats the last item of the
  first page (as when a row was inserted on the server in between).
\<close>

theorem overlapping_page_duplicates_id:
  "snd (run initialView
          [Render loggedIn (Fulfilled (seedPage 0)),
           Render (loggedIn\<lparr>token := Some ''jwt2''\<rparr>)
             (Fulfilled [seedExpense 9, seedExpense 10])])
     = [Api_fetchExpenses ''jwt'' 1 10, Api_fetchExpenses ''jwt2'' 2 10]
   \<and> \<not> distinct (ids (expenses (feed (fst (run initialView
          [Render loggedIn (Fulfilled (seedPage 0)),
           Render (loggedIn\<lparr>token := Some ''jwt2''\<rparr>)
             (Fulfilled [seedExpense 9, seedExpense 10])])))))"
  by code_simp

text \<open>
  Claim C2, amended. From the empty feed, after every sequence of operations whose
  server responses carry fresh ids (\<open>freshRun\<close>: the ids of a loaded page are pairwise
  different and occur in no item held, the id of a record returned by \<open>addExpense\<close>
  occurs in no item held), \<open>expenses\<close> holds no two entries with the same id. Updates,
  deletions and failed requests need no condition.
\<close>

theorem no_duplicate_ids_when_fresh:
  "freshRun initialView es \<Longrightarrow> distinct (ids (expenses (feed (fst (run initialView es)))))"
  by (rule run_distinct_ids) (simp_all add: initialView_def initialState_def ids_def)

theorem no_duplicate_ids_when_fresh_witness:
  "freshRun initialView session1
   \<and> distinct (ids (expenses (feed (fst (run initialView session1)))))"
proof -
  have h: "freshRun initialView session1" by code_simp
  show ?thesis using h no_duplicate_ids_when_fresh [OF h] by simp
qed

text \<open>
  Claim C3. After every successful page load and every successful \<open>handleAddExpense\<close>
  or \<open>handleUpdateExpense\<close>, \<open>expenses\<close> is sorted by date, latest first, for all
  sequences of such operations from the empty feed. Each of the three operations sorts the
  whole list, whatever the state before; and \<open>expenses\<close> is sorted after every sequence of
  events from the initial view.
\<close>

theorem items_sorted_after_load_add_update:
  "(truthy (token (cb_deps cb)) \<and> cb_hasMore cb \<longrightarrow>
      sortedDesc (expenses (fst (loadExpenses cb (Fulfilled data) st))))
   \<and> (truthy tok \<longrightarrow>
      sortedDesc (expenses (fst (handleAddExpense tok newExpenseData (Fulfilled e) st))))
   \<and> (truthy tok \<longrightarrow>
      sortedDesc (expenses (fst (handleUpdateExpense tok updatedExpenseData (Fulfilled e) st))))
   \<and> sortedDesc (expenses (feed (fst (run initialView es))))"
proof -
  have "sortedDesc (expenses (feed initialView))"
    by (simp add: initialView_def initialState_def sortedDesc_def)
  then have "sortedDesc (expenses (feed (fst (run initialView es))))"
    by (rule run_sortedDesc)
  then show ?thesis
    by (simp add: loadExpenses_expenses handleAddExpense_expenses
          handleUpdateExpense_expenses sortedDesc_sort_cmp)
qed

theorem items_sorted_after_load_add_update_witness:
  "truthy (token (cb_deps exampleCb)) \<and> cb_hasMore exampleCb \<and> truthy (Some ''jwt'')
   \<and> sortedDesc (expenses (fst (loadExpenses exampleCb (Fulfilled (seedPage 0))
        (initialState\<lparr>expenses := rev (seedPage 0)\<rparr>))))
   \<and> sortedDesc (expenses (fst (handleAddExpense (Some ''jwt'') coffee
        (Fulfilled (seedExpense 6)) (initialState\<lparr>expenses := rev (seedPage 0)\<rparr>))))
   \<and> sortedDesc (expenses (fst (handleUpdateExpense (Some ''jwt'') (seedExpense 6)
        (Fulfilled (seedExpense 6)) (initialState\<lparr>expenses := rev (seedPage 0)\<rparr>))))"
proof -
  have h: "truthy (token (cb_deps exampleCb)) \<and> cb_hasMore exampleCb"
    and k: "truthy (Some ''jwt'')"
    by (simp_all add: exampleCb_def loggedIn_def truthy_def)
  show ?thesis
    using h k
      items_sorted_after_load_add_update [where cb = exampleCb and data = "seedPage 0"
        and st = "initialState\<lparr>expenses := rev (seedPage 0)\<rparr>" and tok = "Some ''jwt''"
        and newExpenseData = coffee and e = "seedExpense 6"
        and updatedExpenseData = "seedExpense 6" and es = "[]"]
    by simp
qed

text \<open>
  Claim C4. Once a fetched page has fewer than \<open>PAGE_SIZE\<close> items, \<open>hasMore\<close> is
  false (the feed is exhausted), no later operation sets it back, and from then on no scroll
  event triggers a fetch: a scroll calls nothing, and \<open>handleScroll\<close> itself, with any
  \<open>loadExpenses\<close> it may hold, changes nothing and calls nothing at such a state.
\<close>

theorem exhausted_is_permanent:
  "(truthy (token (cb_deps cb)) \<and> cb_hasMore cb \<and> length data < PAGE_SIZE \<longrightarrow>
      \<not> hasMore (fst (loadExpenses cb (Fulfilled data) st)))
   \<and> (\<not> hasMore (feed v) \<longrightarrow>
        \<not> hasMore (feed (fst (run v es)))
        \<and> step (fst (run v es)) (Scroll innerHeight scrollTop offsetHeight)
            = (fst (run v es), [])
        \<and> handleScroll innerHeight scrollTop offsetHeight scrollCb res (feed (fst (run v es)))
            = (feed (fst (run v es)), []))"
  by (simp add: loadExpenses_ok run_hasMore handleScroll_exhausted)

theorem exhausted_is_permanent_witness:
  "truthy (token (cb_deps exampleCb)) \<and> cb_hasMore exampleCb
   \<and> length [seedExpense 0, seedExpense 1] < PAGE_SIZE
   \<and> \<not> hasMore (feed shortPageView)
   \<and> \<not> hasMore (fst (loadExpenses exampleCb (Fulfilled [seedExpense 0, seedExpense 1]) someFeed))
   \<and> \<not> hasMore (feed (fst (run shortPageView laterEvents)))
   \<and> step (fst (run shortPageView laterEvents)) (Scroll 800 1200 2000)
       = (fst (run shortPageView laterEvents), [])
   \<and> handleScroll 800 1200 2000 exampleCb (Fulfilled (seedPage 1))
         (feed (fst (run shortPageView laterEvents)))
       = (feed (fst (run shortPageView laterEvents)), [])"
proof -
  have h: "truthy (token (cb_deps exampleCb)) \<and> cb_hasMore exampleCb
      \<and> length [seedExpense 0, seedExpense 1] < PAGE_SIZE"
    by (simp add: exampleCb_def loggedIn_def truthy_def PAGE_SIZE_def)
  have k: "\<not> hasMore (feed shortPageView)"
    by code_simp
  show ?thesis
    using h k
      exhausted_is_permanent [where cb = exampleCb and data = "[seedExpense 0, seedExpense 1]"
        and st = someFeed and v = shortPageView and es = laterEvents
        and innerHeight = 800 and scrollTop = 1200 and offsetHeight = 2000
        and scrollCb = exampleCb and res = "Fulfilled (seedPage 1)"]
    by blast
qed

text \<open>
  Claim C5. When the fetch of \<open>loadExpenses\<close> rejects (token present, \<open>hasMore\<close>
  true for the callback), the call makes one request and no second one, calls \<open>logout\<close>
  exactly once, pushes \<open>/login\<close> and leaves \<open>isLoading\<close> false; \<open>isLoading\<close> is false
  after every such call, however the fetch settles.
\<close>

theorem failed_load_logs_out_once:
  "truthy (token (cb_deps cb)) \<and> cb_hasMore cb \<Longrightarrow>
     loadExpenses cb Rejected st =
       (st\<lparr>isLoading := False\<rparr>,
        [Api_fetchExpenses (the (token (cb_deps cb))) (cb_page cb) PAGE_SIZE,
         Console_error ''Failed to fetch expenses:'', Logout, Router_push ''/login''])
     \<and> count_list (snd (loadExpenses cb Rejected st)) Logout = 1
     \<and> length (filter isFetch (snd (loadExpenses cb Rejected st))) = 1
     \<and> \<not> isLoading (fst (loadExpenses cb res st))"
  by (simp add: loadExpenses_def isFetch_def Let_def split: settled.splits)

theorem failed_load_logs_out_once_witness:
  "truthy (token (cb_deps exampleCb)) \<and> cb_hasMore exampleCb
   \<and> loadExpenses exampleCb Rejected someFeed =
       (someFeed\<lparr>isLoading := False\<rparr>,
        [Api_fetchExpenses ''jwt'' 1 10,
         Console_error ''Failed to fetch expenses:'', Logout, Router_push ''/login''])
   \<and> count_list (snd (loadExpenses exampleCb Rejected someFeed)) Logout = 1
   \<and> length (filter isFetch (snd (loadExpenses exampleCb Rejected someFeed))) = 1
   \<and> \<not> isLoading (fst (loadExpenses exampleCb (Fulfilled (seedPage 1)) someFeed))"
proof -
  have h: "truthy (token (cb_deps exampleCb)) \<and> cb_hasMore exampleCb"
    by (simp add: exampleCb_def loggedIn_def truthy_def)
  have v: "the (token (cb_deps exampleCb)) = ''jwt''" "cb_page exampleCb = 1" "PAGE_SIZE = 10"
    by (simp_all add: exampleCb_def loggedIn_def PAGE_SIZE_def)
  show ?thesis
    using h failed_load_logs_out_once [OF h, of someFeed "Fulfilled (seedPage 1)"]
    unfolding v by blast
qed

text \<open>
  Claim C6. When the request of \<open>handleAddExpense\<close>, \<open>handleUpdateExpense\<close> or
  \<open>handleDeleteExpense\<close> rejects, the state (\<open>expenses\<close>, \<open>page\<close>, \<open>hasMore\<close>, and
  \<open>isLoading\<close> too) is unchanged, and besides the request and a console message the only
  call is a toast titled \<open>Error\<close>: no \<open>logout\<close>, no redirect.
\<close>

theorem failed_mutation_leaves_state:
  "truthy tok \<Longrightarrow>
     handleAddExpense tok newExpenseData Rejected st =
       (st, [Api_addExpense newExpenseData (the tok),
             Console_error ''Failed to add expense:'',
             Toast ''Error'' ''Failed to add expense.'' (Some ''destructive'')])
     \<and> handleUpdateExpense tok updatedExpenseData Rejected st =
       (st, [Api_updateExpense updatedExpenseData (the tok),
             Console_error ''Failed to update expense:'',
             Toast ''Error'' ''Failed to update expense.'' (Some ''destructive'')])
     \<and> handleDeleteExpense tok expenseId Rejected st =
       (st, [Api_deleteExpense expenseId (the tok),
             Console_error ''Failed to delete expense:'',
             Toast ''Error'' ''Failed to delete expense.'' (Some ''destructive'')])"
  by (simp add: handleAddExpense_def handleUpdateExpense_def handleDeleteExpense_def)

theorem failed_mutation_leaves_state_witness:
  "truthy (Some ''jwt'')
   \<and> handleAddExpense (Some ''jwt'') coffee Rejected someFeed =
       (someFeed, [Api_addExpense coffee ''jwt'',
             Console_error ''Failed to add expense:'',
             Toast ''Error'' ''Failed to add expense.'' (Some ''destructive'')])
   \<and> handleUpdateExpense (Some ''jwt'') (seedExpense 7) Rejected someFeed =
       (someFeed, [Api_updateExpense (seedExpense 7) ''jwt'',
             Console_error ''Failed to update expense:'',
             Toast ''Error'' ''Failed to update expense.'' (Some ''destructive'')])
   \<and> handleDeleteExpense (Some ''jwt'') (expense_id (seedExpense 7)) Rejected someFeed =
       (someFeed, [Api_deleteExpense (expense_id (seedExpense 7)) ''jwt'',
             Console_error ''Failed to delete expense:'',
             Toast ''Error'' ''Failed to delete expense.'' (Some ''destructive'')])"
proof -
  have h: "truthy (Some ''jwt'')" by (simp add: truthy_def)
  show ?thesis
    using h failed_mutation_leaves_state [OF h, of coffee someFeed "seedExpense 7"
        "expense_id (seedExpense 7)"]
    by simp
qed

text \<open>
  Claim C7. For every id and state, a successful \<open>handleDeleteExpense\<close> keeps exactly
  the entries with another id, in their order; when no entry has the id the state is
  unchanged and nothing is reported as an error (the toast quotes \<open>undefined\<close>).
\<close>

theorem delete_removes_matching:
  "truthy tok \<Longrightarrow>
     expenses (fst (handleDeleteExpense tok expenseId (Fulfilled ()) st))
       = filter (\<lambda>e. expense_id e \<noteq> expenseId) (expenses st)
     \<and> (expenseId \<notin> set (ids (expenses st)) \<longrightarrow>
          handleDeleteExpense tok expenseId (Fulfilled ()) st =
            (st, [Api_deleteExpense expenseId (the tok),
                  Toast ''Expense Deleted''
                    (quoted ''undefined'' @ '' has been deleted.'') None]))"
proof -
  assume t: "truthy tok"
  have "filter (\<lambda>e. expense_id e \<noteq> expenseId) (expenses st) = expenses st"
       "find (\<lambda>e. expense_id e = expenseId) (expenses st) = None"
    if "expenseId \<notin> set (ids (expenses st))"
    using that by (auto simp: ids_def find_None_iff filter_id_conv)
  with t show ?thesis
    by (simp add: handleDeleteExpense_def Let_def)
qed

theorem delete_removes_matching_witness:
  "truthy (Some ''jwt'') \<and> ''no such id'' \<notin> set (ids (expenses someFeed))
   \<and> expenses (fst (handleDeleteExpense (Some ''jwt'') ''no such id'' (Fulfilled ()) someFeed))
       = filter (\<lambda>e. expense_id e \<noteq> ''no such id'') (expenses someFeed)
   \<and> handleDeleteExpense (Some ''jwt'') ''no such id'' (Fulfilled ()) someFeed =
       (someFeed, [Api_deleteExpense ''no such id'' ''jwt'',
                  Toast ''Expense Deleted''
                    (quoted ''undefined'' @ '' has been deleted.'') None])"
proof -
  have h: "truthy (Some ''jwt'')" by (simp add: truthy_def)
  have k: "''no such id'' \<notin> set (ids (expenses someFeed))"
    by code_simp
  show ?thesis
    using h k delete_removes_matching [OF h, of "''no such id''" someFeed]
    unfolding option.sel by blast
qed

text \<open>
  Claim C8. \<open>allCategories\<close> is exactly the set of distinct category labels occurring in
  \<open>expenses\<close>, sorted alphabetically, with no duplicates, and a pure function of
  \<open>expenses\<close>.

  The default \<open>sort()\<close> compares character codes, and every upper-case letter has a
  smaller code than every lower-case one: of the labels \<open>apple\<close>, \<open>Zoo\<close>, \<open>food\<close>
  the result puts \<open>Zoo\<close> first, which is not alphabetical order.
\<close>

theorem sort_is_not_alphabetical:
  "deriveCategories mixedCaseFeed = [''Zoo'', ''apple'', ''food'']
   \<and> \<not> sortedAlphabetically (deriveCategories mixedCaseFeed)"
  by code_simp

text \<open>
  Claim C8, amended. \<open>allCategories\<close> is exactly the set of category labels occurring in
  \<open>expenses\<close>, without duplicates, in the ascending order of the default \<open>sort()\<close>
  (lexicographic by character code, so upper case before lower case), and depends on
  \<open>expenses\<close> only: states with equal \<open>expenses\<close> give equal results. It returns a list
  and no state.
\<close>

theorem deriveCategories_sorted_distinct:
  "set (deriveCategories st) = category ` set (expenses st)
   \<and> sorted (deriveCategories st)
   \<and> distinct (deriveCategories st)
   \<and> (expenses st = expenses st' \<longrightarrow> deriveCategories st = deriveCategories st')"
  by (simp add: deriveCategories_def set_allCategories sorted_allCategories
        distinct_allCategories)

theorem deriveCategories_sorted_distinct_witness:
  "expenses someFeed = expenses (someFeed\<lparr>page := 5, isLoading := True\<rparr>)
   \<and> set (deriveCategories someFeed) = category ` set (expenses someFeed)
   \<and> sorted (deriveCategories someFeed)
   \<and> distinct (deriveCategories someFeed)
   \<and> deriveCategories someFeed = deriveCategories (someFeed\<lparr>page := 5, isLoading := True\<rparr>)"
proof -
  have h: "expenses someFeed = expenses (someFeed\<lparr>page := 5, isLoading := True\<rparr>)"
    by simp
  show ?thesis
    using h deriveCategories_sorted_distinct [of someFeed
        "someFeed\<lparr>page := 5, isLoading := True\<rparr>"]
    by blast
qed

text \<open>
  Claim C9. Without a token (\<open>null\<close> or empty), \<open>loadExpenses\<close> sets \<open>isLoading\<close>
  to false, makes no request and no other call, and leaves \<open>expenses\<close>, \<open>page\<close> and
  \<open>hasMore\<close> as they were.
\<close>

theorem load_without_token:
  "\<not> truthy (token (cb_deps cb)) \<Longrightarrow>
     loadExpenses cb res st = (st\<lparr>isLoading := False\<rparr>, [])"
  by (simp add: loadExpenses_def)

theorem load_without_token_witness:
  "\<not> truthy (token (cb_deps (exampleCb\<lparr>cb_deps := loggedOut\<rparr>)))
   \<and> loadExpenses (exampleCb\<lparr>cb_deps := loggedOut\<rparr>) (Fulfilled (seedPage 0)) initialState
       = (initialState\<lparr>isLoading := False\<rparr>, [])"
proof -
  have h: "\<not> truthy (token (cb_deps (exampleCb\<lparr>cb_deps := loggedOut\<rparr>)))"
    by (simp add: loggedOut_def truthy_def)
  show ?thesis
    using h load_without_token [OF h, of "Fulfilled (seedPage 0)" initialState]
    by simp
qed

text \<open>
  Claim C10. Ties between equal dates: a successful \<open>handleAddExpense\<close> puts the new
  record in front before sorting, so among the items of its date it comes first, directly
  after the items of a later date; a successful page load appends before sorting, so among
  the items of any one date the fetched ones follow the ones already held.
\<close>

theorem ties_add_first_load_last:
  "(truthy tok \<longrightarrow>
      filter (\<lambda>x. date x = date e)
          (expenses (fst (handleAddExpense tok newExpenseData (Fulfilled e) st)))
        = e # filter (\<lambda>x. date x = date e) (expenses st)
      \<and> expenses (fst (handleAddExpense tok newExpenseData (Fulfilled e) st))
        = takeWhile (\<lambda>x. date x > date e) (sort_cmp byDateDesc (expenses st))
          @ e # dropWhile (\<lambda>x. date x > date e) (sort_cmp byDateDesc (expenses st)))
   \<and> (truthy (token (cb_deps cb)) \<and> cb_hasMore cb \<longrightarrow>
      filter (\<lambda>x. date x = k) (expenses (fst (loadExpenses cb (Fulfilled data) st)))
        = filter (\<lambda>x. date x = k) (expenses st) @ filter (\<lambda>x. date x = k) data)"
proof (intro conjI impI)
  assume "truthy tok"
  then show "filter (\<lambda>x. date x = date e)
          (expenses (fst (handleAddExpense tok newExpenseData (Fulfilled e) st)))
        = e # filter (\<lambda>x. date x = date e) (expenses st)"
    by (simp add: handleAddExpense_expenses stable_sort_cmp)
next
  assume "truthy tok"
  then show "expenses (fst (handleAddExpense tok newExpenseData (Fulfilled e) st))
        = takeWhile (\<lambda>x. date x > date e) (sort_cmp byDateDesc (expenses st))
          @ e # dropWhile (\<lambda>x. date x > date e) (sort_cmp byDateDesc (expenses st))"
    by (simp add: handleAddExpense_expenses sort_cmp_byDateDesc insort_key_takeWhile)
next
  assume "truthy (token (cb_deps cb)) \<and> cb_hasMore cb"
  then show "filter (\<lambda>x. date x = k) (expenses (fst (loadExpenses cb (Fulfilled data) st)))
        = filter (\<lambda>x. date x = k) (expenses st) @ filter (\<lambda>x. date x = k) data"
    by (simp add: loadExpenses_expenses stable_sort_cmp)
qed

theorem ties_add_first_load_last_witness:
  "truthy (Some ''jwt'') \<and> truthy (token (cb_deps exampleCb)) \<and> cb_hasMore exampleCb
   \<and> expenses (fst (handleAddExpense (Some ''jwt'') coffee
        (Fulfilled ((seedExpense 9)\<lparr>date := 7\<rparr>)) someFeed))
       = [(seedExpense 9)\<lparr>date := 7\<rparr>, seedExpense 7,
          (seedExpense 8)\<lparr>date := 7, category := ''Groceries''\<rparr>, seedExpense 2]
   \<and> expenses (fst (loadExpenses exampleCb
        (Fulfilled [(seedExpense 9)\<lparr>date := 7\<rparr>]) someFeed))
       = [seedExpense 7, (seedExpense 8)\<lparr>date := 7, category := ''Groceries''\<rparr>,
          (seedExpense 9)\<lparr>date := 7\<rparr>, seedExpense 2]"
proof -
  have h: "truthy (Some ''jwt'')"
    and k: "truthy (token (cb_deps exampleCb)) \<and> cb_hasMore exampleCb"
    by (simp_all add: exampleCb_def loggedIn_def truthy_def)
  have a: "expenses (fst (handleAddExpense (Some ''jwt'') coffee
        (Fulfilled ((seedExpense 9)\<lparr>date := 7\<rparr>)) someFeed))
       = [(seedExpense 9)\<lparr>date := 7\<rparr>, seedExpense 7,
          (seedExpense 8)\<lparr>date := 7, category := ''Groceries''\<rparr>, seedExpense 2]"
    by code_simp
  have b: "expenses (fst (loadExpenses exampleCb
        (Fulfilled [(seedExpense 9)\<lparr>date := 7\<rparr>]) someFeed))
       = [seedExpense 7, (seedExpense 8)\<lparr>date := 7, category := ''Groceries''\<rparr>,
          (seedExpense 9)\<lparr>date := 7\<rparr>, seedExpense 2]"
    by code_simp
  show ?thesis
    using h k a b
      ties_add_first_load_last [where tok = "Some ''jwt''" and e = "(seedExpense 9)\<lparr>date := 7\<rparr>"
        and newExpenseData = coffee and st = someFeed and cb = exampleCb and k = 7
        and data = "[(seedExpense 9)\<lparr>date := 7\<rparr>]"]
    by blast
qed

end
